theory Spec2Isabelle
  imports Main "HOL-Library.Stream"
begin

section \<open>The dice game of main.py\<close>

text \<open>
  A shallow embedding of the game logic of \<^verbatim>\<open>main.py\<close>: the dice source, the scoring
  rules of \<^verbatim>\<open>GameState\<close>, the round and tie-break loops of the main program and the
  login loop \<^verbatim>\<open>authenticate\<close>. Console output and the roll animation are not modelled.
\<close>

subsection \<open>Errors\<close>

text \<open>
  The exceptions the modelled code can raise: a list index out of range, and
  \<^verbatim>\<open>input()\<close> at the end of the input.
\<close>

datatype error = IndexError | EOFError

text \<open>
  \<^verbatim>\<open>xs[i]\<close> on a list: an index from 0 up to the length reads from the front, one from
  minus the length up to -1 reads from the back, and any other index raises.
\<close>

definition py_index :: "'a list \<Rightarrow> int \<Rightarrow> error + 'a" where
  "py_index xs i =
     (if 0 \<le> i \<and> i < int (length xs) then Inr (xs ! nat i)
      else if - int (length xs) \<le> i \<and> i < 0 then Inr (xs ! nat (int (length xs) + i))
      else Inl IndexError)"

subsection \<open>The dice source\<close>

text \<open>
  \<^verbatim>\<open>random.randint(a, b)\<close> returns an integer \<open>N\<close> with \<open>a \<le> N \<le> b\<close>: both ends are
  included. The set of its possible results:
\<close>

definition randint :: "int \<Rightarrow> int \<Rightarrow> int set" where
  "randint a b = {a..b}"

text \<open>\<^verbatim>\<open>score = random.randint(1, 7)\<close> in \<^verbatim>\<open>_roll_dice\<close>: the values one roll can return.\<close>

definition roll_dice_outcomes :: "int set" where
  "roll_dice_outcomes = randint 1 7"

text \<open>
  The random generator is an infinite stream of the outcomes still to come; a roll takes
  the head of the stream and leaves the tail. A stream is a dice source of the program
  when each of its elements is a value \<^verbatim>\<open>randint(1, 7)\<close> can return.
\<close>

type_synonym dice_source = "int stream"

definition roll_dice :: "dice_source \<Rightarrow> int \<times> dice_source" where
  "roll_dice ds = (shd ds, stl ds)"

definition dice_ok :: "dice_source \<Rightarrow> bool" where
  "dice_ok ds = (sset ds \<subseteq> roll_dice_outcomes)"

subsection \<open>The scoring rules\<close>

text \<open>
  \<^verbatim>\<open>_check_double\<close>: on a double one more die is rolled and added; the function returns
  the sum and the dice source after its roll, if any.
\<close>

definition check_double :: "int \<Rightarrow> int \<Rightarrow> dice_source \<Rightarrow> int \<times> dice_source" where
  "check_double roll1 roll2 ds =
     (if roll1 = roll2 then
        (let (extra_score, ds') = roll_dice ds in (roll1 + roll2 + extra_score, ds'))
      else (roll1 + roll2, ds))"

text \<open>\<^verbatim>\<open>_check_even\<close>: \<^verbatim>\<open>if score % 2: return score\<close>, otherwise ten is added.\<close>

definition check_even :: "int \<Rightarrow> int" where
  "check_even s = (if s mod 2 \<noteq> 0 then s else s + 10)"

text \<open>\<^verbatim>\<open>_check_odd\<close>: an odd score loses five and is raised to zero when negative.\<close>

definition check_odd :: "int \<Rightarrow> int" where
  "check_odd s =
     (if s mod 2 \<noteq> 0 then (let s' = s - 5 in if s' < 0 then 0 else s') else s)"

definition calculate_scores :: "int \<Rightarrow> int \<Rightarrow> dice_source \<Rightarrow> int \<times> dice_source" where
  "calculate_scores roll1 roll2 ds =
     (let (double_score, ds') = check_double roll1 roll2 ds;
          even_score = check_even double_score;
          odd_score = check_odd even_score
      in (odd_score, ds'))"

subsection \<open>The scoring pipeline as the specification words it\<close>

text \<open>
  The three stages of \<open>score_round\<close> as the specification states them, with the extra
  roll of the double stage as an argument. These follow the specification's text, to be
  compared with \<^const>\<open>calculate_scores\<close>.
\<close>

definition spec_double_stage :: "int \<Rightarrow> int \<Rightarrow> int \<Rightarrow> int" where
  "spec_double_stage roll1 roll2 extra =
     (if roll1 = roll2 then roll1 + roll2 + extra else roll1 + roll2)"

definition spec_even_stage :: "int \<Rightarrow> int" where
  "spec_even_stage subtotal = (if even subtotal then subtotal + 10 else subtotal)"

definition spec_odd_stage :: "int \<Rightarrow> int" where
  "spec_odd_stage subtotal = (if odd subtotal then max 0 (subtotal - 5) else subtotal)"

definition spec_score_round :: "int \<Rightarrow> int \<Rightarrow> int \<Rightarrow> int" where
  "spec_score_round roll1 roll2 extra =
     spec_odd_stage (spec_even_stage (spec_double_stage roll1 roll2 extra))"

subsection \<open>Players, the game state and the objects they refer to\<close>

text \<open>
  \<^verbatim>\<open>Player\<close> objects are mutable and \<^verbatim>\<open>GameState.players\<close> is a list of references to
  them, so the objects live in a store of their own: a reference is an address, and the
  store maps each address to the object at it. \<^verbatim>\<open>Player.__init__\<close> starts the score at 0.
\<close>

record Player =
  username :: string
  score :: int

definition Player_init :: "string \<Rightarrow> Player" where
  "Player_init uname = \<lparr>username = uname, score = 0\<rparr>"

type_synonym ref = nat

record GameState =
  rounds :: int
  players :: "ref list"
  turn :: int

definition GameState_init :: "ref list \<Rightarrow> GameState" where
  "GameState_init ps = \<lparr>rounds = 1, players = ps, turn = 0\<rparr>"

text \<open>
  Everything the game phase of the program reads and writes: the \<^verbatim>\<open>game_state\<close> object,
  the store of \<^verbatim>\<open>Player\<close> objects, the dice outcomes to come and the lines of console
  input to come.
\<close>

record world =
  game :: GameState
  heap :: "ref \<Rightarrow> Player"
  dice :: dice_source
  stdin :: "string list"

text \<open>
  \<^verbatim>\<open>game_state = GameState([player_one, player_two])\<close> in the main program: the two
  players returned by the two logins are two objects, here at the addresses 0 and 1.
\<close>

definition new_game :: "Player \<Rightarrow> Player \<Rightarrow> dice_source \<Rightarrow> string list \<Rightarrow> world" where
  "new_game player_one player_two ds ins =
     \<lparr>game = GameState_init [0, 1],
      heap = (\<lambda>_. Player_init [])(0 := player_one, 1 := player_two),
      dice = ds,
      stdin = ins\<rparr>"

definition add_score :: "ref \<Rightarrow> int \<Rightarrow> (ref \<Rightarrow> Player) \<Rightarrow> (ref \<Rightarrow> Player)" where
  \<comment> \<open>\<^verbatim>\<open>p.score += n\<close> on the object at address \<open>p\<close>\<close>
  "add_score p n h = h(p := (h p)\<lparr>score := score (h p) + n\<rparr>)"

subsection \<open>A round\<close>

text \<open>
  \<^verbatim>\<open>play_round\<close>: two rolls, the score of the round (with its extra roll on a double),
  then the current player is looked up and credited and the turn is swapped; the round
  counter goes up in the \<^verbatim>\<open>else\<close> branch of the swap.
\<close>

definition play_round :: "world \<Rightarrow> error + world" where
  "play_round w =
     (let (dice_val1, ds1) = roll_dice (dice w);
          (dice_val2, ds2) = roll_dice ds1;
          (sc, ds3) = calculate_scores dice_val1 dice_val2 ds2
      in case py_index (players (game w)) (turn (game w)) of
           Inl e \<Rightarrow> Inl e
         | Inr current_player \<Rightarrow>
             Inr (w\<lparr>heap := add_score current_player sc (heap w),
                    dice := ds3,
                    game := (if turn (game w) = 0 then (game w)\<lparr>turn := 1\<rparr>
                             else (game w)\<lparr>turn := 0, rounds := rounds (game w) + 1\<rparr>)\<rparr>))"

text \<open>The score \<^verbatim>\<open>play_round\<close> computes from the dice source of a state.\<close>

definition round_score :: "world \<Rightarrow> int" where
  "round_score w =
     (let (dice_val1, ds1) = roll_dice (dice w);
          (dice_val2, ds2) = roll_dice ds1
      in fst (calculate_scores dice_val1 dice_val2 ds2))"

text \<open>
  The states of the game that calls of \<^verbatim>\<open>play_round\<close> can reach from a new game.
\<close>

inductive reachable :: "world \<Rightarrow> bool" where
  reachable_new: "reachable (new_game player_one player_two ds ins)"
| reachable_round: "reachable w \<Longrightarrow> play_round w = Inr w' \<Longrightarrow> reachable w'"

subsection \<open>The tie-break\<close>

definition is_draw :: "world \<Rightarrow> error + bool" where
  "is_draw w =
     (case py_index (players (game w)) 0 of
        Inl e \<Rightarrow> Inl e
      | Inr p0 \<Rightarrow>
         (case py_index (players (game w)) 1 of
            Inl e \<Rightarrow> Inl e
          | Inr p1 \<Rightarrow> Inr (score (heap w p0) = score (heap w p1))))"

text \<open>
  The body of the \<^verbatim>\<open>while\<close> loop of \<^verbatim>\<open>play_draw\<close>: each player is looked up (for the
  name that is printed) and rolls once, then the two rolls are added to the two scores.
\<close>

definition play_draw_body :: "world \<Rightarrow> error + world" where
  "play_draw_body w =
     (case py_index (players (game w)) 0 of
        Inl e \<Rightarrow> Inl e
      | Inr _ \<Rightarrow>
         (let (player1_roll, ds1) = roll_dice (dice w) in
          case py_index (players (game w)) 1 of
            Inl e \<Rightarrow> Inl e
          | Inr _ \<Rightarrow>
             (let (player2_roll, ds2) = roll_dice ds1 in
              case py_index (players (game w)) 0 of
                Inl e \<Rightarrow> Inl e
              | Inr p0 \<Rightarrow>
                 (let h1 = add_score p0 player1_roll (heap w) in
                  case py_index (players (game w)) 1 of
                    Inl e \<Rightarrow> Inl e
                  | Inr p1 \<Rightarrow>
                      Inr (w\<lparr>heap := add_score p1 player2_roll h1, dice := ds2\<rparr>)))))"

text \<open>
  \<^verbatim>\<open>play_draw\<close>: the loop runs while the scores are equal, and with a dice source whose
  rolls keep the scores equal it runs for ever: the result \<open>None\<close>.
\<close>

partial_function (option) play_draw :: "world \<Rightarrow> (error + world) option" where
  "play_draw w =
     (case is_draw w of
        Inl e \<Rightarrow> Some (Inl e)
      | Inr d \<Rightarrow>
         if d then (case play_draw_body w of Inl e \<Rightarrow> Some (Inl e) | Inr w' \<Rightarrow> play_draw w')
         else Some (Inr w))"

subsection \<open>The main program from the start of the game to the winner\<close>

text \<open>
  \<^verbatim>\<open>show_summary\<close> prints and changes nothing; it can fail where it looks a player up.
\<close>

definition show_summary :: "bool \<Rightarrow> world \<Rightarrow> error + unit" where
  "show_summary end_summary w =
     (case (if \<not> end_summary
            then (case py_index (players (game w)) (turn (game w)) of
                    Inl e \<Rightarrow> Inl e | Inr _ \<Rightarrow> Inr ())
            else Inr ()) of
        Inl e \<Rightarrow> Inl e
      | Inr _ \<Rightarrow>
         (case py_index (players (game w)) 0 of
            Inl e \<Rightarrow> Inl e
          | Inr _ \<Rightarrow>
             (case py_index (players (game w)) 1 of
                Inl e \<Rightarrow> Inl e
              | Inr _ \<Rightarrow> Inr ())))"

text \<open>
  The main game loop: \<^verbatim>\<open>while game_state.rounds <= 5\<close>, a summary, one line of input
  (\<^verbatim>\<open>input\<close> raises at the end of the input) and a round. Each turn of the loop reads
  a line of the input, which bounds the recursion; that a new game with ten lines of
  input ends the loop with the round counter at 6 is \<open>main_loop_new_game\<close> below.
\<close>

function main_loop :: "world \<Rightarrow> error + world" where
  "main_loop w =
     (if rounds (game w) \<le> 5 then
        (case show_summary False w of
           Inl e \<Rightarrow> Inl e
         | Inr _ \<Rightarrow>
            (case stdin w of
               [] \<Rightarrow> Inl EOFError
             | _ # ins \<Rightarrow>
                (case play_round (w\<lparr>stdin := ins\<rparr>) of
                   Inl e \<Rightarrow> Inl e
                 | Inr w' \<Rightarrow> main_loop w')))
      else Inr w)"
  by pat_completeness auto
termination
proof (relation "measure (\<lambda>w. length (stdin w))")
  show "wf (measure (\<lambda>w. length (stdin w)))"
    by simp
next
  fix w :: world and u :: unit and l :: string and ins :: "string list" and w' :: world
  assume "stdin w = l # ins" and "play_round (w\<lparr>stdin := ins\<rparr>) = Inr w'"
  then show "(w', w) \<in> measure (\<lambda>w. length (stdin w))"
    by (auto simp: play_round_def Let_def split: prod.splits sum.splits)
qed

text \<open>
  After the loop: the tie-break when the scores are equal, the end summary, and the
  winner, \<^verbatim>\<open>players[0]\<close> when its score is greater and \<^verbatim>\<open>players[1]\<close> otherwise. The
  result is the reference to the winner and the final state. Saving the winner's score
  and listing the top scores, which follow in the program, are left out.
\<close>

definition get_winner :: "world \<Rightarrow> error + ref" where
  "get_winner w =
     (case py_index (players (game w)) 0 of
        Inl e \<Rightarrow> Inl e
      | Inr p0 \<Rightarrow>
         (case py_index (players (game w)) 1 of
            Inl e \<Rightarrow> Inl e
          | Inr p1 \<Rightarrow>
             if score (heap w p0) > score (heap w p1) then py_index (players (game w)) 0
             else py_index (players (game w)) 1))"

definition end_game :: "world \<Rightarrow> error + ref \<times> world" where
  "end_game w =
     (case show_summary True w of
        Inl e \<Rightarrow> Inl e
      | Inr _ \<Rightarrow> (case get_winner w of Inl e \<Rightarrow> Inl e | Inr p \<Rightarrow> Inr (p, w)))"

definition run_draw :: "world \<Rightarrow> (error + world) option" where
  \<comment> \<open>\<^verbatim>\<open>if game_state.is_draw(): show_summary(True); game_state.play_draw()\<close>\<close>
  "run_draw w =
     (case is_draw w of
        Inl e \<Rightarrow> Some (Inl e)
      | Inr d \<Rightarrow>
         if d then (case show_summary True w of Inl e \<Rightarrow> Some (Inl e) | Inr _ \<Rightarrow> play_draw w)
         else Some (Inr w))"

definition run_game :: "world \<Rightarrow> (error + ref \<times> world) option" where
  "run_game w =
     (case main_loop w of
        Inl e \<Rightarrow> Some (Inl e)
      | Inr w1 \<Rightarrow>
         (case run_draw w1 of
            None \<Rightarrow> None
          | Some (Inl e) \<Rightarrow> Some (Inl e)
          | Some (Inr w2) \<Rightarrow> Some (end_game w2)))"

subsection \<open>Login\<close>

text \<open>
  The Credential Store as \<^verbatim>\<open>authenticate\<close> sees it: the rows (username, password
  digest) of the table \<^verbatim>\<open>users\<close>, and a log of the usernames it has been queried for,
  in the order of the queries. The digest function \<^verbatim>\<open>hashlib.sha256(...).digest()\<close> is
  a parameter.
\<close>

record 'h store =
  users :: "(string \<times> 'h) list"
  queries :: "string list"

definition select_password :: "'h store \<Rightarrow> string \<Rightarrow> 'h list \<times> 'h store" where
  \<comment> \<open>\<^verbatim>\<open>SELECT password FROM users WHERE username=?\<close> and \<^verbatim>\<open>fetchall\<close>\<close>
  "select_password st uname =
     (map snd (filter (\<lambda>row. fst row = uname) (users st)),
      st\<lparr>queries := queries st @ [uname]\<rparr>)"

text \<open>
  \<^verbatim>\<open>authenticate\<close>: the \<^verbatim>\<open>while True\<close> loop reads a username, and a password when the
  username is allowed and known. Each turn of the loop reads at least one line of the
  input, which is a list here, so the recursion ends: with the player, the input left
  and the store, or with the error of \<^verbatim>\<open>input\<close> at the end of the input.
\<close>

fun authenticate ::
  "(string \<Rightarrow> 'h) \<Rightarrow> Player list \<Rightarrow> string list \<Rightarrow> 'h store
     \<Rightarrow> error + Player \<times> string list \<times> 'h store" where
  "authenticate sha256 not_allowed [] st = Inl EOFError"
| "authenticate sha256 not_allowed (uname # ins) st =
     (if length [True. u \<leftarrow> not_allowed, username u = uname] > 0
      then authenticate sha256 not_allowed ins st
      else
        (let (required_password, st') = select_password st uname in
         case required_password of
           [] \<Rightarrow> authenticate sha256 not_allowed ins st'
         | required # _ \<Rightarrow>
            (case ins of
               [] \<Rightarrow> Inl EOFError
             | user_password # ins' \<Rightarrow>
                if sha256 user_password = required
                then Inr (Player_init uname, ins', st')
                else authenticate sha256 not_allowed ins' st')))"

subsection \<open>Properties of the scoring rules\<close>

lemma check_even_parity: "check_even s = (if even s then s + 10 else s)"
  by (simp add: check_even_def even_iff_mod_2_eq_zero)

lemma check_odd_parity: "check_odd s = (if odd s then max 0 (s - 5) else s)"
  by (simp add: check_odd_def Let_def even_iff_mod_2_eq_zero max_def)

lemma calculate_scores_fst:
  "fst (calculate_scores roll1 roll2 ds) =
     check_odd (check_even (if roll1 = roll2 then roll1 + roll2 + shd ds else roll1 + roll2))"
  by (simp add: calculate_scores_def check_double_def roll_dice_def Let_def)

lemma calculate_scores_snd:
  "snd (calculate_scores roll1 roll2 ds) = (if roll1 = roll2 then stl ds else ds)"
  by (simp add: calculate_scores_def check_double_def roll_dice_def Let_def)

text \<open>
  Claim C1. For all rolls (any integers, so the die faces too) the score that
  \<^verbatim>\<open>_calculate_scores\<close> returns is the composition of the three stages of the
  specification, with the extra roll drawn from the dice source on a double and only
  then; the rolls 3 and 3 with the extra roll 5 score 6.
\<close>

theorem score_round_stages:
  "fst (calculate_scores roll1 roll2 ds) = spec_score_round roll1 roll2 (shd ds)
   \<and> snd (calculate_scores roll1 roll2 ds) = (if roll1 = roll2 then stl ds else ds)
   \<and> fst (calculate_scores 3 3 (5 ## ds)) = 6"
  by (simp add: calculate_scores_fst calculate_scores_snd check_even_parity check_odd_parity
      spec_score_round_def spec_odd_stage_def spec_even_stage_def spec_double_stage_def)

text \<open>
  Claim C3 says that every roll is between 1 and 6, as the docstring of \<^verbatim>\<open>_roll_dice\<close>
  does. The code draws with \<^verbatim>\<open>random.randint(1, 7)\<close>, which includes 7: a dice source
  of the program can hold a 7, and the roll returns it.
\<close>

theorem roll_dice_seven:
  "7 \<in> roll_dice_outcomes \<and> dice_ok (sconst 7) \<and> fst (roll_dice (sconst 7)) = 7
   \<and> \<not> (fst (roll_dice (sconst 7)) \<le> 6)"
  by (simp add: roll_dice_outcomes_def randint_def roll_dice_def dice_ok_def)

text \<open>
  Claim C6. A stage changes its argument exactly when its rule applies (the even stage
  on an even number, the odd stage on an odd one), and on every subtotal exactly one of
  the two applies: either the subtotal is even, ten is added and the odd stage leaves
  the result as it is, or the subtotal is odd, the even stage leaves it as it is and the
  odd stage takes five off, with zero as the floor.
\<close>

theorem exactly_one_adjustment:
  "((check_even s \<noteq> s) = even s) \<and> ((check_odd v \<noteq> v) = odd v)
   \<and> ((even s \<and> check_even s = s + 10 \<and> check_odd (check_even s) = check_even s)
      \<or> (odd s \<and> check_even s = s \<and> check_odd (check_even s) = max 0 (s - 5)))"
  by (auto simp: check_even_parity check_odd_parity max_def)

text \<open>
  Claim C10. The score of a round is an even number, for all integer rolls and any
  extra roll.
\<close>

theorem score_round_even: "even (fst (calculate_scores roll1 roll2 ds))"
  by (auto simp: calculate_scores_fst check_even_parity check_odd_parity max_def)

text \<open>
  Claim C7. For rolls in the range of the die (the two rolls, and the roll the dice
  source gives next, which is the extra roll on a double) the score of a round is not
  negative; an odd value that five would take below zero becomes 0.
\<close>

theorem score_round_nonneg:
  assumes "roll1 \<in> roll_dice_outcomes" and "roll2 \<in> roll_dice_outcomes"
    and "shd ds \<in> roll_dice_outcomes"
  shows "0 \<le> fst (calculate_scores roll1 roll2 ds)
     \<and> (\<forall>v. odd v \<and> v - 5 < 0 \<longrightarrow> check_odd v = 0)"
  using assms
  by (auto simp: calculate_scores_fst check_even_parity check_odd_parity max_def
      roll_dice_outcomes_def randint_def)

theorem score_round_nonneg_witness:
  "(1::int) \<in> roll_dice_outcomes \<and> shd (sconst 1) \<in> roll_dice_outcomes
   \<and> 0 \<le> fst (calculate_scores 1 1 (sconst 1)) \<and> fst (calculate_scores 1 1 (sconst 1)) = 0
   \<and> check_odd 3 = 0"
proof -
  have a: "(1::int) \<in> roll_dice_outcomes"
    by (simp add: roll_dice_outcomes_def randint_def)
  have b: "shd (sconst (1::int)) \<in> roll_dice_outcomes"
    by (simp add: roll_dice_outcomes_def randint_def)
  from score_round_nonneg [OF a a b] have "0 \<le> fst (calculate_scores 1 1 (sconst 1))" and "check_odd 3 = 0"
    by simp_all
  with a b show ?thesis
    by (simp add: calculate_scores_fst check_even_parity check_odd_parity)
qed

subsection \<open>Properties of a round\<close>

lemma py_index_pair [simp]:
  "py_index [a, b] 0 = Inr a" "py_index [a, b] 1 = Inr b"
  by (simp_all add: py_index_def)

lemma reachable_shape:
  "reachable w \<Longrightarrow> players (game w) = [0, 1] \<and> (turn (game w) = 0 \<or> turn (game w) = 1)"
proof (induction rule: reachable.induct)
  case (reachable_new player_one player_two ds ins)
  show ?case by (simp add: new_game_def GameState_init_def)
next
  case (reachable_round w w')
  then show ?case
    by (auto simp: play_round_def Let_def split: prod.splits sum.splits if_splits)
qed

lemma play_round_pair:
  assumes "players (game w) = [a, b]" and "turn (game w) = 0 \<or> turn (game w) = 1"
  shows "play_round w =
     Inr (w\<lparr>heap := add_score (if turn (game w) = 0 then a else b) (round_score w) (heap w),
            dice := snd (calculate_scores (shd (dice w)) (shd (stl (dice w))) (stl (stl (dice w)))),
            game := (if turn (game w) = 0 then (game w)\<lparr>turn := 1\<rparr>
                     else (game w)\<lparr>turn := 0, rounds := rounds (game w) + 1\<rparr>)\<rparr>)"
  using assms
  by (auto simp: play_round_def round_score_def roll_dice_def Let_def split: prod.splits)

text \<open>
  Claim C2. In every reachable state \<^verbatim>\<open>play_round\<close> succeeds, twice in a row; the turn
  is 0 or 1 and each call swaps it; the first call adds one to the round counter exactly
  when the turn was 1 (it goes back to 0), and the two calls together add exactly one.
\<close>

theorem turn_alternates:
  assumes "reachable w"
  shows "\<exists>w1 w2. play_round w = Inr w1 \<and> play_round w1 = Inr w2
     \<and> (turn (game w) = 0 \<or> turn (game w) = 1)
     \<and> turn (game w1) = 1 - turn (game w) \<and> turn (game w2) = turn (game w)
     \<and> rounds (game w1) = (if turn (game w) = 1 then rounds (game w) + 1 else rounds (game w))
     \<and> rounds (game w2) = rounds (game w) + 1"
proof -
  from assms have s: "players (game w) = [0, 1]" and t: "turn (game w) = 0 \<or> turn (game w) = 1"
    using reachable_shape by blast+
  from play_round_pair [OF s t] obtain w1 where w1: "play_round w = Inr w1"
    and t1: "turn (game w1) = 1 - turn (game w)"
    and r1: "rounds (game w1) = (if turn (game w) = 1 then rounds (game w) + 1 else rounds (game w))"
    and s1: "players (game w1) = [0, 1]"
    using s t by auto
  from t t1 have t1': "turn (game w1) = 0 \<or> turn (game w1) = 1" by auto
  from play_round_pair [OF s1 t1'] obtain w2 where w2: "play_round w1 = Inr w2"
    and t2: "turn (game w2) = 1 - turn (game w1)"
    and r2: "rounds (game w2) = (if turn (game w1) = 1 then rounds (game w1) + 1 else rounds (game w1))"
    using t1' by auto
  from t t1 t2 r1 r2 have "turn (game w2) = turn (game w)" "rounds (game w2) = rounds (game w) + 1"
    by auto
  with w1 w2 t t1 r1 show ?thesis by blast
qed

theorem turn_alternates_witness:
  "reachable (new_game (Player_init ''ann'') (Player_init ''bob'') (sconst 1) [])
   \<and> (\<exists>w1 w2. play_round (new_game (Player_init ''ann'') (Player_init ''bob'') (sconst 1) []) = Inr w1
        \<and> play_round w1 = Inr w2
        \<and> turn (game w1) = 1 \<and> turn (game w2) = 0
        \<and> rounds (game w1) = 1 \<and> rounds (game w2) = 2)"
proof -
  let ?w = "new_game (Player_init ''ann'') (Player_init ''bob'') (sconst 1) []"
  have r: "reachable ?w" by (rule reachable_new)
  have "turn (game ?w) = 0" "rounds (game ?w) = 1"
    by (simp_all add: new_game_def GameState_init_def)
  with turn_alternates [OF r] r show ?thesis by auto
qed

text \<open>
  Claim C8. In every reachable state \<^verbatim>\<open>play_round\<close> adds the score of the round to the
  score of the player at index \<open>turn\<close>; the other player is a different object, whose
  score is unchanged, as is every object but the current player, and no username
  changes.
\<close>

theorem play_round_frame:
  assumes "reachable w"
  shows "\<exists>w' cur other. play_round w = Inr w'
     \<and> py_index (players (game w)) (turn (game w)) = Inr cur
     \<and> py_index (players (game w)) (1 - turn (game w)) = Inr other
     \<and> cur \<noteq> other
     \<and> score (heap w' cur) = score (heap w cur) + round_score w
     \<and> score (heap w' other) = score (heap w other)
     \<and> (\<forall>p. p \<noteq> cur \<longrightarrow> heap w' p = heap w p)
     \<and> (\<forall>p. username (heap w' p) = username (heap w p))"
proof -
  from assms have s: "players (game w) = [0, 1]" and t: "turn (game w) = 0 \<or> turn (game w) = 1"
    using reachable_shape by blast+
  define cur :: ref where "cur = (if turn (game w) = 0 then 0 else 1)"
  define other :: ref where "other = (if turn (game w) = 0 then 1 else 0)"
  define w' where "w' = w\<lparr>heap := add_score cur (round_score w) (heap w),
            dice := snd (calculate_scores (shd (dice w)) (shd (stl (dice w))) (stl (stl (dice w)))),
            game := (if turn (game w) = 0 then (game w)\<lparr>turn := 1\<rparr>
                     else (game w)\<lparr>turn := 0, rounds := rounds (game w) + 1\<rparr>)\<rparr>"
  have step: "play_round w = Inr w'"
    using play_round_pair [OF s t] by (simp add: w'_def cur_def)
  have idx: "py_index (players (game w)) (turn (game w)) = Inr cur"
    "py_index (players (game w)) (1 - turn (game w)) = Inr other"
    using t by (auto simp: s cur_def other_def)
  have ne: "cur \<noteq> other"
    by (simp add: cur_def other_def)
  have h: "heap w' = add_score cur (round_score w) (heap w)"
    by (simp add: w'_def)
  have "score (heap w' cur) = score (heap w cur) + round_score w"
    and "score (heap w' other) = score (heap w other)"
    and "\<forall>p. p \<noteq> cur \<longrightarrow> heap w' p = heap w p"
    and "\<forall>p. username (heap w' p) = username (heap w p)"
    using ne by (simp_all add: h add_score_def)
  with step idx ne show ?thesis by blast
qed

theorem play_round_frame_witness:
  "reachable (new_game (Player_init ''ann'') (Player_init ''bob'') (3 ## 4 ## sconst 1) [])
   \<and> round_score (new_game (Player_init ''ann'') (Player_init ''bob'') (3 ## 4 ## sconst 1) []) = 2
   \<and> (\<exists>w'. play_round (new_game (Player_init ''ann'') (Player_init ''bob'') (3 ## 4 ## sconst 1) []) = Inr w'
        \<and> heap w' 0 = \<lparr>username = ''ann'', score = 2\<rparr>
        \<and> heap w' 1 = \<lparr>username = ''bob'', score = 0\<rparr>)"
proof -
  let ?w = "new_game (Player_init ''ann'') (Player_init ''bob'') (3 ## 4 ## sconst 1) []"
  have r: "reachable ?w" by (rule reachable_new)
  have v: "round_score ?w = 2"
    by (simp add: round_score_def new_game_def roll_dice_def calculate_scores_def
        check_double_def check_even_def check_odd_def)
  from play_round_frame [OF r] obtain w' cur other where
    "play_round ?w = Inr w'" "py_index (players (game ?w)) (turn (game ?w)) = Inr cur"
    "py_index (players (game ?w)) (1 - turn (game ?w)) = Inr other"
    "score (heap w' cur) = score (heap ?w cur) + round_score ?w"
    "score (heap w' other) = score (heap ?w other)"
    "\<forall>p. username (heap w' p) = username (heap ?w p)"
    by blast
  then have "play_round ?w = Inr w' \<and> heap w' 0 = \<lparr>username = ''ann'', score = 2\<rparr>
        \<and> heap w' 1 = \<lparr>username = ''bob'', score = 0\<rparr>"
    using v by (auto simp: new_game_def GameState_init_def Player_init_def)
  with r v show ?thesis by blast
qed

subsection \<open>Properties of the tie-break and of the end of the game\<close>

lemma is_draw_pair:
  "players (game w) = [p0, p1] \<Longrightarrow> is_draw w = Inr (score (heap w p0) = score (heap w p1))"
  by (simp add: is_draw_def)

lemma play_draw_body_pair:
  "players (game w) = [p0, p1] \<Longrightarrow>
   play_draw_body w =
     Inr (w\<lparr>heap := add_score p1 (shd (stl (dice w))) (add_score p0 (shd (dice w)) (heap w)),
            dice := stl (stl (dice w))\<rparr>)"
  by (simp add: play_draw_body_def roll_dice_def)

lemma play_draw_body_game: "play_draw_body w = Inr w' \<Longrightarrow> game w' = game w"
  by (auto simp: play_draw_body_def Let_def split: sum.splits prod.splits)

lemma play_draw_no_draw: "is_draw w = Inr False \<Longrightarrow> play_draw w = Some (Inr w)"
  by (subst play_draw.simps) simp

lemma play_draw_step:
  "is_draw w = Inr True \<Longrightarrow>
   play_draw w = (case play_draw_body w of Inl e \<Rightarrow> Some (Inl e) | Inr w1 \<Rightarrow> play_draw w1)"
  by (subst play_draw.simps) simp

lemma play_draw_exit_aux:
  assumes "play_draw w = Some r"
  shows "\<forall>w'. r = Inr w' \<longrightarrow> game w' = game w \<and> is_draw w' = Inr False"
proof (induction rule: play_draw.raw_induct [OF _ assms])
  case (1 loop w r)
  show ?case
  proof (cases "is_draw w")
    case (Inl e)
    with 1(2) have "r = Inl e" by simp
    then show ?thesis by simp
  next
    case (Inr d)
    show ?thesis
    proof (cases d)
      case False
      with 1(2) Inr have "r = Inr w" by simp
      with Inr False show ?thesis by simp
    next
      case True
      show ?thesis
      proof (cases "play_draw_body w")
        case (Inl e)
        with 1(2) Inr True have "r = Inl e" by simp
        then show ?thesis by simp
      next
        case body: (Inr w1)
        with 1(2) Inr True have a: "loop w1 = Some r" by simp
        have ih: "\<forall>w'. r = Inr w' \<longrightarrow> game w' = game w1 \<and> is_draw w' = Inr False"
          by (rule 1(1) [OF a])
        show ?thesis
          unfolding play_draw_body_game [OF body, symmetric] by (rule ih)
      qed
    qed
  qed
qed

lemma play_draw_exit:
  "play_draw w = Some (Inr w') \<Longrightarrow> game w' = game w \<and> is_draw w' = Inr False"
  using play_draw_exit_aux by blast

declare main_loop.simps [simp del]

lemma main_loop_rounds: "main_loop w = Inr w1 \<Longrightarrow> 5 < rounds (game w1)"
proof (induction w rule: main_loop.induct)
  case (1 w)
  show ?case
  proof (cases "rounds (game w) \<le> 5")
    case False
    with 1(2) show ?thesis by (simp add: main_loop.simps [of w])
  next
    case True
    with 1(2) obtain l ins w2 where "show_summary False w = Inr ()" "stdin w = l # ins"
      "play_round (w\<lparr>stdin := ins\<rparr>) = Inr w2" "main_loop w2 = Inr w1"
      by (auto simp: main_loop.simps [of w] split: sum.splits list.splits)
    with 1(1) True show ?thesis by blast
  qed
qed

lemma run_draw_exit:
  "run_draw w = Some (Inr w') \<Longrightarrow> game w' = game w \<and> is_draw w' = Inr False"
  by (auto simp: run_draw_def split: sum.splits if_splits dest: play_draw_exit)

lemma get_winner_ahead:
  assumes "is_draw w = Inr False" and "get_winner w = Inr p"
  shows "\<exists>p0 p1. py_index (players (game w)) 0 = Inr p0 \<and> py_index (players (game w)) 1 = Inr p1
     \<and> ((p = p0 \<and> score (heap w p1) < score (heap w p0))
        \<or> (p = p1 \<and> score (heap w p0) < score (heap w p1)))"
  using assms by (auto simp: is_draw_def get_winner_def split: sum.splits if_splits)

lemma run_game_winner:
  assumes "run_game w = Some (Inr (p, w'))"
  shows "\<exists>p0 p1. py_index (players (game w')) 0 = Inr p0 \<and> py_index (players (game w')) 1 = Inr p1
     \<and> 5 < rounds (game w')
     \<and> ((p = p0 \<and> score (heap w' p1) < score (heap w' p0))
        \<or> (p = p1 \<and> score (heap w' p0) < score (heap w' p1)))"
proof -
  from assms obtain w1 where loop: "main_loop w = Inr w1"
    and draw: "run_draw w1 = Some (Inr w')" and fin: "end_game w' = Inr (p, w')"
    by (auto simp: run_game_def end_game_def split: sum.splits option.splits)
  from fin have win: "get_winner w' = Inr p"
    by (auto simp: end_game_def split: sum.splits)
  from run_draw_exit [OF draw] main_loop_rounds [OF loop]
  have "5 < rounds (game w')" and "is_draw w' = Inr False" by simp_all
  with get_winner_ahead [OF _ win] show ?thesis by blast
qed

lemma show_summary_pair:
  "players (game w) = [a, b] \<Longrightarrow> turn (game w) = 0 \<or> turn (game w) = 1 \<Longrightarrow>
   show_summary e w = Inr ()"
  by (auto simp: show_summary_def)

lemma play_draw_one_round:
  assumes ps: "players (game w) = [p0, p1]" and ne: "p0 \<noteq> p1"
    and eq: "score (heap w p0) = score (heap w p1)"
    and rolls: "shd (dice w) \<noteq> shd (stl (dice w))"
  shows "play_draw w = Some (play_draw_body w)"
proof -
  define w1 where "w1 = w\<lparr>heap := add_score p1 (shd (stl (dice w))) (add_score p0 (shd (dice w)) (heap w)),
            dice := stl (stl (dice w))\<rparr>"
  have body: "play_draw_body w = Inr w1"
    by (simp add: play_draw_body_pair [OF ps] w1_def)
  have "is_draw w = Inr True"
    by (simp add: is_draw_pair [OF ps] eq)
  from play_draw_step [OF this] body have step: "play_draw w = play_draw w1"
    by simp
  have ps1: "players (game w1) = [p0, p1]"
    by (simp add: w1_def ps)
  have "is_draw w1 = Inr False"
    using ne eq rolls by (simp add: is_draw_pair [OF ps1]) (simp add: w1_def add_score_def)
  from play_draw_no_draw [OF this] step body show ?thesis
    by simp
qed

text \<open>
  Claim C4. After the rounds (the round counter is past 5) the tie-break is skipped when
  the scores differ: the state is left as it is. When they are equal the tie-break is the
  loop \<^verbatim>\<open>play_draw\<close>, which runs its body and starts again. With the two players as two
  distinct objects one turn of the body adds the next roll, as it is, to the score of the
  first player and the roll after it to the score of the second, and changes nothing of
  the game state; when these two rolls differ the loop returns after this one turn.
  Whenever the loop returns, the scores are unequal.
\<close>

theorem tie_break:
  "(main_loop a = Inr b \<and> is_draw b = Inr False \<longrightarrow>
      5 < rounds (game b) \<and> run_draw b = Some (Inr b))
   \<and> (is_draw w = Inr True \<longrightarrow>
      run_draw w = play_draw w
      \<and> play_draw w =
          (case play_draw_body w of Inl e \<Rightarrow> Some (Inl e) | Inr w1 \<Rightarrow> play_draw w1))
   \<and> (players (game w) = [p0, p1] \<and> p0 \<noteq> p1 \<longrightarrow>
      (\<exists>w1. play_draw_body w = Inr w1
         \<and> score (heap w1 p0) = score (heap w p0) + shd (dice w)
         \<and> score (heap w1 p1) = score (heap w p1) + shd (stl (dice w))
         \<and> dice w1 = stl (stl (dice w)) \<and> game w1 = game w))
   \<and> (players (game w) = [p0, p1] \<and> p0 \<noteq> p1 \<and> score (heap w p0) = score (heap w p1)
        \<and> shd (dice w) \<noteq> shd (stl (dice w)) \<longrightarrow>
      play_draw w = Some (play_draw_body w))
   \<and> (play_draw w = Some (Inr w') \<longrightarrow> is_draw w' = Inr False \<and> game w' = game w)"
proof (intro conjI impI)
  assume "main_loop a = Inr b \<and> is_draw b = Inr False"
  then show "5 < rounds (game b)"
    using main_loop_rounds by blast
next
  assume "main_loop a = Inr b \<and> is_draw b = Inr False"
  then show "run_draw b = Some (Inr b)"
    by (simp add: run_draw_def)
next
  assume d: "is_draw w = Inr True"
  then have "show_summary True w = Inr ()"
    by (auto simp: is_draw_def show_summary_def split: sum.splits)
  with d show "run_draw w = play_draw w"
    by (simp add: run_draw_def)
next
  assume "is_draw w = Inr True"
  then show "play_draw w =
      (case play_draw_body w of Inl e \<Rightarrow> Some (Inl e) | Inr w1 \<Rightarrow> play_draw w1)"
    by (rule play_draw_step)
next
  assume h: "players (game w) = [p0, p1] \<and> p0 \<noteq> p1"
  then have ps: "players (game w) = [p0, p1]" and ne: "p0 \<noteq> p1"
    by simp_all
  show "\<exists>w1. play_draw_body w = Inr w1
         \<and> score (heap w1 p0) = score (heap w p0) + shd (dice w)
         \<and> score (heap w1 p1) = score (heap w p1) + shd (stl (dice w))
         \<and> dice w1 = stl (stl (dice w)) \<and> game w1 = game w"
    using ne by (simp add: play_draw_body_pair [OF ps] add_score_def)
next
  assume "players (game w) = [p0, p1] \<and> p0 \<noteq> p1 \<and> score (heap w p0) = score (heap w p1)
        \<and> shd (dice w) \<noteq> shd (stl (dice w))"
  then show "play_draw w = Some (play_draw_body w)"
    using play_draw_one_round by blast
next
  assume "play_draw w = Some (Inr w')"
  then show "is_draw w' = Inr False"
    using play_draw_exit by blast
next
  assume "play_draw w = Some (Inr w')"
  then show "game w' = game w"
    using play_draw_exit by blast
qed

lemma main_loop_total:
  assumes "players (game w) = [0, 1]"
    and "turn (game w) = 0 \<or> turn (game w) = 1"
    and "rounds (game w) \<le> 5 \<or> (rounds (game w) = 6 \<and> turn (game w) = 0)"
    and "nat (2 * (6 - rounds (game w)) - turn (game w)) \<le> length (stdin w)"
  shows "\<exists>w1. main_loop w = Inr w1 \<and> players (game w1) = [0, 1]
           \<and> rounds (game w1) = 6 \<and> turn (game w1) = 0"
  using assms
proof (induction w rule: main_loop.induct)
  case (1 w)
  show ?case
  proof (cases "rounds (game w) \<le> 5")
    case False
    with 1(4) have "rounds (game w) = 6" "turn (game w) = 0" by simp_all
    with 1(2) show ?thesis by (simp add: main_loop.simps [of w])
  next
    case True
    have sum: "show_summary False w = Inr ()"
      using show_summary_pair [OF 1(2) 1(3)] .
    from True 1(3) 1(5) have "0 < length (stdin w)" by auto
    then obtain l ins where ins: "stdin w = l # ins"
      by (cases "stdin w") simp_all
    let ?v = "w\<lparr>stdin := ins\<rparr>"
    have ps: "players (game ?v) = [0, 1]" and t: "turn (game ?v) = 0 \<or> turn (game ?v) = 1"
      using 1(2) 1(3) by simp_all
    obtain w2 where step: "play_round ?v = Inr w2"
      and ps2: "players (game w2) = [0, 1]"
      and t2: "turn (game w2) = 1 - turn (game w)"
      and r2: "rounds (game w2) = (if turn (game w) = 0 then rounds (game w) else rounds (game w) + 1)"
      and in2: "stdin w2 = ins"
      using play_round_pair [OF ps t] 1(2) 1(3) by auto
    have a: "turn (game w2) = 0 \<or> turn (game w2) = 1"
      using t2 1(3) by auto
    have b: "rounds (game w2) \<le> 5 \<or> (rounds (game w2) = 6 \<and> turn (game w2) = 0)"
      using t2 r2 1(3) True by auto
    have c: "nat (2 * (6 - rounds (game w2)) - turn (game w2)) \<le> length (stdin w2)"
      using t2 r2 in2 ins 1(3) 1(5) True by auto
    from 1(1) [OF True sum ins step ps2 a b c]
    obtain w1 where "main_loop w2 = Inr w1" "players (game w1) = [0, 1]"
      "rounds (game w1) = 6" "turn (game w1) = 0"
      by blast
    moreover have "main_loop w = main_loop w2"
      using True sum ins step by (simp add: main_loop.simps [of w])
    ultimately show ?thesis by simp
  qed
qed

lemma main_loop_new_game:
  assumes "10 \<le> length ins"
  shows "\<exists>w1. main_loop (new_game a b ds ins) = Inr w1 \<and> players (game w1) = [0, 1]
           \<and> rounds (game w1) = 6 \<and> turn (game w1) = 0"
  using assms by (intro main_loop_total) (simp_all add: new_game_def GameState_init_def)

lemma play_draw_no_error_aux:
  assumes "play_draw w = Some r"
  shows "players (game w) = [p0, p1] \<longrightarrow> (\<exists>w'. r = Inr w')"
proof (induction rule: play_draw.raw_induct [OF _ assms])
  case (1 loop w r)
  show ?case
  proof
    assume ps: "players (game w) = [p0, p1]"
    note d = is_draw_pair [OF ps]
    show "\<exists>w'. r = Inr w'"
    proof (cases "score (heap w p0) = score (heap w p1)")
      case False
      with 1(2) d have "r = Inr w" by simp
      then show ?thesis by blast
    next
      case True
      define w1 where "w1 = w\<lparr>heap := add_score p1 (shd (stl (dice w))) (add_score p0 (shd (dice w)) (heap w)),
            dice := stl (stl (dice w))\<rparr>"
      have body: "play_draw_body w = Inr w1"
        by (simp add: play_draw_body_pair [OF ps] w1_def)
      with 1(2) d True have a: "loop w1 = Some r" by simp
      have "players (game w1) = [p0, p1]"
        by (simp add: w1_def ps)
      with 1(1) [OF a] show ?thesis by blast
    qed
  qed
qed

lemma play_draw_no_error:
  "play_draw w = Some r \<Longrightarrow> players (game w) = [p0, p1] \<Longrightarrow> \<exists>w'. r = Inr w'"
  using play_draw_no_error_aux by blast

lemma get_winner_pair:
  "players (game w) = [p0, p1] \<Longrightarrow>
   get_winner w = Inr (if score (heap w p1) < score (heap w p0) then p0 else p1)"
  by (simp add: get_winner_def)

lemma run_game_new_game:
  assumes len: "10 \<le> length ins" and ret: "run_game (new_game a b ds ins) = Some r"
  shows "\<exists>p w'. r = Inr (p, w') \<and> rounds (game w') = 6 \<and> (p = 0 \<or> p = 1)"
proof -
  from main_loop_new_game [OF len] obtain w1 where
    loop: "main_loop (new_game a b ds ins) = Inr w1" and ps: "players (game w1) = [0, 1]"
    and r: "rounds (game w1) = 6" and t: "turn (game w1) = 0"
    by blast
  from ret loop obtain r2 where d: "run_draw w1 = Some r2"
    by (auto simp: run_game_def split: option.splits)
  have "\<exists>w2. r2 = Inr w2 \<and> game w2 = game w1"
  proof (cases "score (heap w1 0) = score (heap w1 1)")
    case False
    with d have "r2 = Inr w1" by (simp add: run_draw_def is_draw_pair [OF ps])
    then show ?thesis by simp
  next
    case True
    from t have "show_summary True w1 = Inr ()"
      using show_summary_pair [OF ps] by simp
    with d True have pd: "play_draw w1 = Some r2"
      by (simp add: run_draw_def is_draw_pair [OF ps])
    from play_draw_no_error [OF pd ps] obtain w2 where "r2 = Inr w2" by blast
    with pd play_draw_exit [of w1 w2] show ?thesis by simp
  qed
  then obtain w2 where r2: "r2 = Inr w2" and g: "game w2 = game w1" by blast
  from g ps t have ps2: "players (game w2) = [0, 1]" and t2: "turn (game w2) = 0" by simp_all
  from t2 have s2: "show_summary True w2 = Inr ()"
    using show_summary_pair [OF ps2] by simp
  from ret loop d r2 have "r = end_game w2"
    by (simp add: run_game_def)
  then have "r = Inr (if score (heap w2 1) < score (heap w2 0) then 0 else 1, w2)"
    by (simp add: end_game_def s2 get_winner_pair [OF ps2])
  with g r show ?thesis by auto
qed

lemma loop_draw_example:
  "\<exists>w1. main_loop (new_game (Player_init ''ann'') (Player_init ''bob'') (cycle [1, 2])
            ['''', '''', '''', '''', '''', '''', '''', '''', '''', ''''])
          = Inr w1
      \<and> game w1 = \<lparr>rounds = 6, players = [0, 1], turn = 0\<rparr>
      \<and> heap w1 0 = \<lparr>username = ''ann'', score = 0\<rparr>
      \<and> heap w1 1 = \<lparr>username = ''bob'', score = 0\<rparr>
      \<and> shd (dice w1) = 1 \<and> shd (stl (dice w1)) = 2"
  by (simp add: main_loop.simps new_game_def GameState_init_def Player_init_def show_summary_def
      play_round_def roll_dice_def Let_def add_score_def
      calculate_scores_def check_double_def check_even_def check_odd_def)

lemma loop_no_draw_example:
  "\<exists>w1. main_loop (new_game (Player_init ''ann'') (Player_init ''bob'') (3 ## 4 ## cycle [1, 2])
            ['''', '''', '''', '''', '''', '''', '''', '''', '''', ''''])
          = Inr w1
      \<and> game w1 = \<lparr>rounds = 6, players = [0, 1], turn = 0\<rparr>
      \<and> heap w1 0 = \<lparr>username = ''ann'', score = 2\<rparr>
      \<and> heap w1 1 = \<lparr>username = ''bob'', score = 0\<rparr>"
  by (simp add: main_loop.simps new_game_def GameState_init_def Player_init_def show_summary_def
      play_round_def roll_dice_def Let_def add_score_def
      calculate_scores_def check_double_def check_even_def check_odd_def)

theorem tie_break_witness:
  "(\<exists>b. main_loop (new_game (Player_init ''ann'') (Player_init ''bob'') (3 ## 4 ## cycle [1, 2])
            ['''', '''', '''', '''', '''', '''', '''', '''', '''', '''']) = Inr b
        \<and> is_draw b = Inr False \<and> 5 < rounds (game b) \<and> run_draw b = Some (Inr b))
   \<and> (\<exists>w w'. main_loop (new_game (Player_init ''ann'') (Player_init ''bob'') (cycle [1, 2])
            ['''', '''', '''', '''', '''', '''', '''', '''', '''', '''']) = Inr w
        \<and> is_draw w = Inr True \<and> run_draw w = Some (Inr w')
        \<and> score (heap w 0) = 0 \<and> score (heap w 1) = 0
        \<and> score (heap w' 0) = 1 \<and> score (heap w' 1) = 2
        \<and> is_draw w' = Inr False)"
proof -
  let ?N = "new_game (Player_init ''ann'') (Player_init ''bob'') (3 ## 4 ## cycle [1, 2])
            ['''', '''', '''', '''', '''', '''', '''', '''', '''', '''']"
  let ?D = "new_game (Player_init ''ann'') (Player_init ''bob'') (cycle [1, 2])
            ['''', '''', '''', '''', '''', '''', '''', '''', '''', '''']"
  from loop_no_draw_example obtain b where b: "main_loop ?N = Inr b"
    and bg: "game b = \<lparr>rounds = 6, players = [0, 1], turn = 0\<rparr>"
    and bh: "heap b 0 = \<lparr>username = ''ann'', score = 2\<rparr>" "heap b 1 = \<lparr>username = ''bob'', score = 0\<rparr>"
    by blast
  have bd: "is_draw b = Inr False"
    using bg bh by (simp add: is_draw_def)
  from loop_draw_example obtain w where w: "main_loop ?D = Inr w"
    and wg: "game w = \<lparr>rounds = 6, players = [0, 1], turn = 0\<rparr>"
    and wh: "heap w 0 = \<lparr>username = ''ann'', score = 0\<rparr>" "heap w 1 = \<lparr>username = ''bob'', score = 0\<rparr>"
    and wd: "shd (dice w) = 1" "shd (stl (dice w)) = 2"
    by blast
  have ps: "players (game w) = [0, 1]"
    by (simp add: wg)
  have d: "is_draw w = Inr True"
    using wg wh by (simp add: is_draw_def)
  note t = tie_break [of ?N b w 0 1]
  from t b bd have first: "5 < rounds (game b) \<and> run_draw b = Some (Inr b)"
    by blast
  from t d have rd: "run_draw w = play_draw w"
    by blast
  from t ps obtain w1 where body: "play_draw_body w = Inr w1"
    and s0: "score (heap w1 0) = score (heap w 0) + shd (dice w)"
    and s1: "score (heap w1 1) = score (heap w 1) + shd (stl (dice w))"
    by auto
  from t ps wh wd have "play_draw w = Some (play_draw_body w)"
    by simp
  with body rd have r: "run_draw w = Some (Inr w1)" and pd: "play_draw w = Some (Inr w1)"
    by simp_all
  from tie_break [of ?N b w 0 1 w1] pd have ex: "is_draw w1 = Inr False"
    by blast
  from s0 s1 wh wd have "score (heap w1 0) = 1" "score (heap w1 1) = 2"
    by simp_all
  with w d r ex wh have "main_loop ?D = Inr w \<and> is_draw w = Inr True \<and> run_draw w = Some (Inr w1)
        \<and> score (heap w 0) = 0 \<and> score (heap w 1) = 0
        \<and> score (heap w1 0) = 1 \<and> score (heap w1 1) = 2 \<and> is_draw w1 = Inr False"
    by simp
  then have second: "\<exists>w w'. main_loop ?D = Inr w
        \<and> is_draw w = Inr True \<and> run_draw w = Some (Inr w')
        \<and> score (heap w 0) = 0 \<and> score (heap w 1) = 0
        \<and> score (heap w' 0) = 1 \<and> score (heap w' 1) = 2
        \<and> is_draw w' = Inr False"
    by blast
  from b bd first have "\<exists>b. main_loop ?N = Inr b
        \<and> is_draw b = Inr False \<and> 5 < rounds (game b) \<and> run_draw b = Some (Inr b)"
    by blast
  with second show ?thesis by blast
qed

text \<open>
  Claim C5. When the main program gets to its winner, the rounds are over (the round
  counter is past 5) and the winner is the one of the two players whose score is strictly
  greater than the other's. A game started by the main program with ten lines of input
  or more never ends in an error: if it ends, it is with a winner, one of the two
  players, and the round counter at 6.
\<close>

theorem winner_strictly_ahead:
  "(run_game w = Some (Inr (p, w')) \<longrightarrow>
      (\<exists>p0 p1. py_index (players (game w')) 0 = Inr p0 \<and> py_index (players (game w')) 1 = Inr p1
         \<and> 5 < rounds (game w')
         \<and> ((p = p0 \<and> score (heap w' p1) < score (heap w' p0))
            \<or> (p = p1 \<and> score (heap w' p0) < score (heap w' p1)))))
   \<and> (10 \<le> length ins \<and> run_game (new_game a b ds ins) = Some r \<longrightarrow>
      (\<exists>q v. r = Inr (q, v) \<and> rounds (game v) = 6 \<and> (q = 0 \<or> q = 1)))"
  using run_game_winner [of w p w'] run_game_new_game [of ins a b ds r] by blast

theorem winner_strictly_ahead_witness:
  "\<exists>w'. run_game (new_game (Player_init ''ann'') (Player_init ''bob'') (cycle [1, 2])
            ['''', '''', '''', '''', '''', '''', '''', '''', '''', '''']) = Some (Inr (1, w'))
      \<and> heap w' 0 = \<lparr>username = ''ann'', score = 1\<rparr>
      \<and> heap w' 1 = \<lparr>username = ''bob'', score = 2\<rparr>
      \<and> score (heap w' 0) < score (heap w' 1) \<and> rounds (game w') = 6"
proof -
  let ?D = "new_game (Player_init ''ann'') (Player_init ''bob'') (cycle [1, 2])
            ['''', '''', '''', '''', '''', '''', '''', '''', '''', '''']"
  from loop_draw_example obtain w where w: "main_loop ?D = Inr w"
    and wg: "game w = \<lparr>rounds = 6, players = [0, 1], turn = 0\<rparr>"
    and wh: "heap w 0 = \<lparr>username = ''ann'', score = 0\<rparr>" "heap w 1 = \<lparr>username = ''bob'', score = 0\<rparr>"
    and wd: "shd (dice w) = 1" "shd (stl (dice w)) = 2"
    by blast
  have ps: "players (game w) = [0, 1]"
    by (simp add: wg)
  define w1 where "w1 = w\<lparr>heap := add_score 1 2 (add_score 0 1 (heap w)), dice := stl (stl (dice w))\<rparr>"
  have body: "play_draw_body w = Inr w1"
    using wd by (simp add: play_draw_body_pair [OF ps] w1_def)
  have "play_draw w = Some (play_draw_body w)"
    using wh wd by (intro play_draw_one_round [OF ps]) simp_all
  with body have pd: "play_draw w = Some (Inr w1)"
    by simp
  have h1: "heap w1 0 = \<lparr>username = ''ann'', score = 1\<rparr>" "heap w1 1 = \<lparr>username = ''bob'', score = 2\<rparr>"
    using wh by (simp_all add: w1_def add_score_def)
  have g1: "game w1 = \<lparr>rounds = 6, players = [0, 1], turn = 0\<rparr>"
    by (simp add: w1_def wg)
  have "run_draw w = Some (Inr w1)"
    using wg wh pd by (simp add: run_draw_def is_draw_def show_summary_def)
  moreover have "end_game w1 = Inr (1, w1)"
    using g1 h1 by (simp add: end_game_def show_summary_def get_winner_def)
  ultimately have run: "run_game ?D = Some (Inr (1, w1))"
    by (simp add: run_game_def w)
  note t = winner_strictly_ahead [of ?D 1 w1 "['''', '''', '''', '''', '''', '''', '''', '''', '''', '''']"
      "Player_init ''ann''" "Player_init ''bob''" "cycle [1, 2]" "Inr (1, w1)"]
  from t run have "score (heap w1 0) < score (heap w1 1)"
    by (auto simp: g1)
  moreover from t run have "rounds (game w1) = 6"
    by auto
  ultimately show ?thesis
    using run h1 by blast
qed

subsection \<open>Properties of the login\<close>

lemma not_allowed_test:
  "(length [True. u \<leftarrow> not_allowed, username u = uname] > 0) = (uname \<in> username ` set not_allowed)"
  by (induction not_allowed) auto

lemma authenticate_blocked:
  "uname \<in> username ` set not_allowed \<Longrightarrow>
   authenticate sha256 not_allowed (uname # ins) st = authenticate sha256 not_allowed ins st"
  by (simp only: authenticate.simps not_allowed_test if_True)

lemma authenticate_queries:
  "authenticate sha256 not_allowed inp st = Inr (p, inp', st') \<Longrightarrow>
   users st' = users st
   \<and> (\<exists>qs. queries st' = queries st @ qs \<and> set qs \<inter> username ` set not_allowed = {})"
proof (induction sha256 not_allowed inp st rule: authenticate.induct)
  case (1 sha256 not_allowed st)
  then show ?case by simp
next
  case (2 sha256 not_allowed uname ins st)
  show ?case
  proof (cases "uname \<in> username ` set not_allowed")
    case True
    then have t: "0 < length [True. u \<leftarrow> not_allowed, username u = uname]"
      by (simp only: not_allowed_test simp_thms)
    have "authenticate sha256 not_allowed ins st = Inr (p, inp', st')"
      using "2.prems" unfolding authenticate_blocked [OF True] .
    from "2.IH"(1) [OF t this] show ?thesis .
  next
    case False
    then have f: "\<not> 0 < length [True. u \<leftarrow> not_allowed, username u = uname]"
      by (simp only: not_allowed_test simp_thms)
    define st1 where "st1 = st\<lparr>queries := queries st @ [uname]\<rparr>"
    define found where "found = map snd (filter (\<lambda>row. fst row = uname) (users st))"
    have sel: "select_password st uname = (found, st1)"
      by (simp add: select_password_def st1_def found_def)
    have grow: "users st' = users st1 \<and>
        (\<exists>qs. queries st' = queries st1 @ qs \<and> set qs \<inter> username ` set not_allowed = {})"
    proof (cases found)
      case Nil
      with "2.prems" f sel have "authenticate sha256 not_allowed ins st1 = Inr (p, inp', st')"
        by simp
      from "2.IH"(2) [OF f sel [symmetric] refl Nil this] show ?thesis .
    next
      case (Cons required rest)
      show ?thesis
      proof (cases ins)
        case Nil
        with "2.prems" f sel Cons show ?thesis by simp
      next
        case ins: (Cons user_password ins2)
        show ?thesis
        proof (cases "sha256 user_password = required")
          case True
          with "2.prems" f sel Cons ins have "st' = st1" by simp
          then show ?thesis by simp
        next
          case False
          with "2.prems" f sel Cons ins
          have "authenticate sha256 not_allowed ins2 st1 = Inr (p, inp', st')" by simp
          from "2.IH"(3) [OF f sel [symmetric] refl Cons ins False this] show ?thesis .
        qed
      qed
    qed
    then obtain qs where "users st' = users st1" "queries st' = queries st1 @ qs"
      "set qs \<inter> username ` set not_allowed = {}" by blast
    with False have "users st' = users st" "queries st' = queries st @ (uname # qs)"
      "set (uname # qs) \<inter> username ` set not_allowed = {}"
      by (simp_all add: st1_def)
    then show ?thesis by blast
  qed
qed

text \<open>
  Claim C9. A username of a player in \<^verbatim>\<open>not_allowed\<close> is rejected and the login asks
  again: \<^verbatim>\<open>authenticate\<close> goes on with the rest of the input and the store as it was,
  its query log included. Over a whole login the table of users is unchanged and no
  query names a username of \<^verbatim>\<open>not_allowed\<close>.
\<close>

theorem not_allowed_rejected:
  "(uname \<in> username ` set not_allowed \<longrightarrow>
      authenticate sha256 not_allowed (uname # ins) st = authenticate sha256 not_allowed ins st)
   \<and> (authenticate sha256 not_allowed inp st = Inr (p, inp', st') \<longrightarrow>
      users st' = users st
      \<and> (\<exists>qs. queries st' = queries st @ qs \<and> set qs \<inter> username ` set not_allowed = {}))"
  using authenticate_blocked [of uname not_allowed sha256 ins st]
    authenticate_queries [of sha256 not_allowed inp st p inp' st']
  by blast

theorem not_allowed_rejected_witness:
  "''ann'' \<in> username ` set [Player_init ''ann'']
   \<and> authenticate (\<lambda>s. s) [Player_init ''ann''] [''ann'', ''bob'', ''pw'']
        \<lparr>users = [(''ann'', ''secret''), (''bob'', ''pw'')], queries = []\<rparr>
     = authenticate (\<lambda>s. s) [Player_init ''ann''] [''bob'', ''pw'']
        \<lparr>users = [(''ann'', ''secret''), (''bob'', ''pw'')], queries = []\<rparr>
   \<and> authenticate (\<lambda>s. s) [Player_init ''ann''] [''ann'', ''bob'', ''pw'']
        \<lparr>users = [(''ann'', ''secret''), (''bob'', ''pw'')], queries = []\<rparr>
     = Inr (Player_init ''bob'', [],
        \<lparr>users = [(''ann'', ''secret''), (''bob'', ''pw'')], queries = [''bob'']\<rparr>)"
proof -
  let ?st = "\<lparr>users = [(''ann'', ''secret''), (''bob'', ''pw'')], queries = []\<rparr>"
  have m: "''ann'' \<in> username ` set [Player_init ''ann'']"
    by (simp add: Player_init_def)
  from not_allowed_rejected [of "''ann''" "[Player_init ''ann'']" "\<lambda>s. s" "[''bob'', ''pw'']" ?st] m
  have e: "authenticate (\<lambda>s. s) [Player_init ''ann''] [''ann'', ''bob'', ''pw''] ?st
     = authenticate (\<lambda>s. s) [Player_init ''ann''] [''bob'', ''pw''] ?st"
    by blast
  have "authenticate (\<lambda>s. s) [Player_init ''ann''] [''bob'', ''pw''] ?st
     = Inr (Player_init ''bob'', [], \<lparr>users = [(''ann'', ''secret''), (''bob'', ''pw'')], queries = [''bob'']\<rparr>)"
    by (simp add: Player_init_def select_password_def)
  with m e show ?thesis by simp
qed

end
